theory Spec2Isabelle
  imports Complex_Main
begin

section \<open>JavaScript numbers\<close>

text \<open>
  The spring solver computes with JavaScript numbers. They are modelled as the real
  numbers extended with the values by which IEEE arithmetic answers a division by zero
  or an undefined operation: negative zero, the two infinities and NaN. \<open>Fin 0\<close> is
  the positive zero. Rounding, overflow and underflow are not modelled: a finite result
  is the exact real result.
\<close>

datatype num = Fin real | NZero | PInf | NInf | NaN

fun val :: "num \<Rightarrow> real" where
  "val (Fin r) = r"
| "val NZero = 0"
| "val PInf = 0"
| "val NInf = 0"
| "val NaN = 0"

fun isFinite :: "num \<Rightarrow> bool" where
  "isFinite (Fin r) = True"
| "isFinite NZero = True"
| "isFinite PInf = False"
| "isFinite NInf = False"
| "isFinite NaN = False"

fun is_zero :: "num \<Rightarrow> bool" where
  "is_zero (Fin r) = (r = 0)"
| "is_zero NZero = True"
| "is_zero PInf = False"
| "is_zero NInf = False"
| "is_zero NaN = False"

fun is_inf :: "num \<Rightarrow> bool" where
  "is_inf (Fin r) = False"
| "is_inf NZero = False"
| "is_inf PInf = True"
| "is_inf NInf = True"
| "is_inf NaN = False"

text \<open>The sign bit: set for negative numbers, for \<open>-0\<close> and for \<open>-Infinity\<close>.\<close>

fun sign_bit :: "num \<Rightarrow> bool" where
  "sign_bit (Fin r) = (r < 0)"
| "sign_bit NZero = True"
| "sign_bit PInf = False"
| "sign_bit NInf = True"
| "sign_bit NaN = False"

definition mk_zero :: "bool \<Rightarrow> num" where
  "mk_zero neg = (if neg then NZero else Fin 0)"

definition mk_inf :: "bool \<Rightarrow> num" where
  "mk_inf neg = (if neg then NInf else PInf)"

instantiation num :: "{plus, minus, uminus, times, inverse, ord}"
begin

definition uminus_num :: "num \<Rightarrow> num" where
  "uminus_num a =
     (case a of
        Fin r \<Rightarrow> (if r = 0 then NZero else Fin (- r))
      | NZero \<Rightarrow> Fin 0
      | PInf \<Rightarrow> NInf
      | NInf \<Rightarrow> PInf
      | NaN \<Rightarrow> NaN)"

definition plus_num :: "num \<Rightarrow> num \<Rightarrow> num" where
  "plus_num a b =
     (if a = NaN \<or> b = NaN then NaN
      else if is_inf a \<and> is_inf b then (if a = b then a else NaN)
      else if is_inf a then a
      else if is_inf b then b
      else if a = NZero \<and> b = NZero then NZero
      else Fin (val a + val b))"

definition minus_num :: "num \<Rightarrow> num \<Rightarrow> num" where
  "minus_num (a::num) b = a + (- b)"

definition times_num :: "num \<Rightarrow> num \<Rightarrow> num" where
  "times_num a b =
     (if a = NaN \<or> b = NaN then NaN
      else if (is_inf a \<and> is_zero b) \<or> (is_zero a \<and> is_inf b) then NaN
      else if is_inf a \<or> is_inf b then mk_inf (sign_bit a \<noteq> sign_bit b)
      else if is_zero a \<or> is_zero b then mk_zero (sign_bit a \<noteq> sign_bit b)
      else Fin (val a * val b))"

definition divide_num :: "num \<Rightarrow> num \<Rightarrow> num" where
  "divide_num a b =
     (if a = NaN \<or> b = NaN then NaN
      else if (is_inf a \<and> is_inf b) \<or> (is_zero a \<and> is_zero b) then NaN
      else if is_inf a \<or> is_zero b then mk_inf (sign_bit a \<noteq> sign_bit b)
      else if is_inf b \<or> is_zero a then mk_zero (sign_bit a \<noteq> sign_bit b)
      else Fin (val a / val b))"

definition inverse_num :: "num \<Rightarrow> num" where
  "inverse_num (a::num) = divide (Fin 1) a"

text \<open>The comparisons \<open><\<close> and \<open><=\<close>: false as soon as an operand is NaN.\<close>

definition less_num :: "num \<Rightarrow> num \<Rightarrow> bool" where
  "less_num a b =
     (if a = NaN \<or> b = NaN then False
      else if a = NInf then b \<noteq> NInf
      else if b = PInf then a \<noteq> PInf
      else if a = PInf \<or> b = NInf then False
      else val a < val b)"

definition less_eq_num :: "num \<Rightarrow> num \<Rightarrow> bool" where
  "less_eq_num a b =
     (if a = NaN \<or> b = NaN then False
      else if a = NInf \<or> b = PInf then True
      else if a = PInf \<or> b = NInf then False
      else val a \<le> val b)"

instance ..

end

text \<open>Strict equality \<open>===\<close> on numbers: NaN equals nothing, the two zeros are equal.\<close>

definition strict_eq :: "num \<Rightarrow> num \<Rightarrow> bool" where
  "strict_eq a b = (a \<noteq> NaN \<and> b \<noteq> NaN \<and> (a = b \<or> (is_zero a \<and> is_zero b)))"

text \<open>A number is falsy (\<open>!t\<close> holds) when it is a zero or NaN.\<close>

definition falsy :: "num \<Rightarrow> bool" where
  "falsy a = (is_zero a \<or> a = NaN)"

text \<open>\<open>Math.sqrt\<close>, \<open>Math.pow(Math.E, y)\<close>, \<open>Math.cos\<close> and \<open>Math.sin\<close>.\<close>

fun Math_sqrt :: "num \<Rightarrow> num" where
  "Math_sqrt (Fin r) = (if r < 0 then NaN else Fin (sqrt r))"
| "Math_sqrt NZero = NZero"
| "Math_sqrt PInf = PInf"
| "Math_sqrt NInf = NaN"
| "Math_sqrt NaN = NaN"

fun Math_pow_E :: "num \<Rightarrow> num" where
  "Math_pow_E (Fin r) = Fin (exp r)"
| "Math_pow_E NZero = Fin 1"
| "Math_pow_E PInf = PInf"
| "Math_pow_E NInf = Fin 0"
| "Math_pow_E NaN = NaN"

fun Math_cos :: "num \<Rightarrow> num" where
  "Math_cos (Fin r) = Fin (cos r)"
| "Math_cos NZero = Fin 1"
| "Math_cos PInf = NaN"
| "Math_cos NInf = NaN"
| "Math_cos NaN = NaN"

fun Math_sin :: "num \<Rightarrow> num" where
  "Math_sin (Fin r) = Fin (sin r)"
| "Math_sin NZero = NZero"
| "Math_sin PInf = NaN"
| "Math_sin NInf = NaN"
| "Math_sin NaN = NaN"

section \<open>The spring\<close>

definition EPSILON :: num where
  "EPSILON = Fin 0.001"

definition almostEqual :: "num \<Rightarrow> num \<Rightarrow> bool" where
  "almostEqual a b = (b - EPSILON < a \<and> a < b + EPSILON)"

definition almostZero :: "num \<Rightarrow> bool" where
  "almostZero a = almostEqual a (Fin 0)"

text \<open>
  The object returned by \<open>_solve\<close>: the two closures \<open>x\<close> and \<open>dx\<close>, functions of
  the time in seconds since the solution was installed.
\<close>

record solution =
  sol_x :: "num \<Rightarrow> num"
  sol_dx :: "num \<Rightarrow> num"

text \<open>
  The fields \<open>_m\<close>, \<open>_k\<close>, \<open>_c\<close>, \<open>_solution\<close>, \<open>_endValue\<close> and \<open>_startTime\<close>
  of a \<open>Spring\<close>; \<open>None\<close> is the \<open>null\<close> solution.
\<close>

record spring =
  spring_m :: num
  spring_k :: num
  spring_c :: num
  spring_solution :: "solution option"
  endValue :: num
  startTime :: num

text \<open>The constructor; \<open>mass\<close> defaults to 1.\<close>

definition Spring :: "num \<Rightarrow> num \<Rightarrow> num option \<Rightarrow> spring" where
  "Spring springConstant damping mass =
     \<lparr> spring_m = (case mass of None \<Rightarrow> Fin 1 | Some v \<Rightarrow> v),
       spring_k = springConstant,
       spring_c = damping,
       spring_solution = None,
       endValue = Fin 0,
       startTime = Fin 0 \<rparr>"

text \<open>The three branches of \<open>_solve\<close>, each with its local constants.\<close>

definition solve_critical :: "num \<Rightarrow> num \<Rightarrow> num \<Rightarrow> num \<Rightarrow> solution" where
  "solve_critical c m initial velocity =
     (let r = (- c) / (Fin 2 * m);
          c1 = initial;
          c2 = velocity / (r * initial)
      in \<lparr> sol_x = (\<lambda>t. (c1 + c2 * t) * Math_pow_E (r * t)),
           sol_dx = (\<lambda>t. let pow = Math_pow_E (r * t)
                          in r * (c1 + c2 * t) * pow + c2 * pow) \<rparr>)"

definition solve_overdamped :: "num \<Rightarrow> num \<Rightarrow> num \<Rightarrow> num \<Rightarrow> num \<Rightarrow> solution" where
  "solve_overdamped c m cmk initial velocity =
     (let r1 = (- c - Math_sqrt cmk) / (Fin 2 * m);
          r2 = (- c + Math_sqrt cmk) / (Fin 2 * m);
          c2 = (velocity - r1 * initial) / (r2 - r1);
          c1 = initial - c2
      in \<lparr> sol_x = (\<lambda>t. c1 * Math_pow_E (r1 * t) + c2 * Math_pow_E (r2 * t)),
           sol_dx = (\<lambda>t. c1 * r1 * Math_pow_E (r1 * t) + c2 * r2 * Math_pow_E (r2 * t)) \<rparr>)"

definition solve_underdamped :: "num \<Rightarrow> num \<Rightarrow> num \<Rightarrow> num \<Rightarrow> num \<Rightarrow> solution" where
  "solve_underdamped c m k initial velocity =
     (let w = Math_sqrt (Fin 4 * m * k - c * c) / (Fin 2 * m);
          r = - ((c / Fin 2) * m);
          c1 = initial;
          c2 = (velocity - r * initial) / w
      in \<lparr> sol_x = (\<lambda>t. Math_pow_E (r * t) * (c1 * Math_cos (w * t) + c2 * Math_sin (w * t))),
           sol_dx = (\<lambda>t. let power = Math_pow_E (r * t);
                              cos = Math_cos (w * t);
                              sin = Math_sin (w * t)
                          in power * (c2 * w * cos - c1 * w * sin) +
                             r * power * (c2 * sin + c1 * cos)) \<rparr>)"

definition solve :: "spring \<Rightarrow> num \<Rightarrow> num \<Rightarrow> solution" where
  "solve s initial velocity =
     (let c = spring_c s;
          m = spring_m s;
          k = spring_k s;
          cmk = c * c - Fin 4 * m * k
      in if strict_eq cmk (Fin 0) then solve_critical c m initial velocity
         else if Fin 0 < cmk then solve_overdamped c m cmk initial velocity
         else solve_underdamped c m k initial velocity)"

text \<open>
  The methods read the wall clock (\<open>new Date().getTime()\<close>, \<open>Date.now()\<close>, in
  milliseconds). The reading is the parameter \<open>now\<close> of each method; the reads made
  during one call return the same value. An optional argument is an \<open>option\<close>,
  \<open>None\<close> for \<open>undefined\<close>.
\<close>

definition Spring_x :: "spring \<Rightarrow> num \<Rightarrow> num option \<Rightarrow> num" where
  "Spring_x s now dt =
     (let dt = (case dt of None \<Rightarrow> (now - startTime s) / Fin 1000 | Some v \<Rightarrow> v)
      in case spring_solution s of
           Some sol \<Rightarrow> endValue s + sol_x sol dt
         | None \<Rightarrow> Fin 0)"

definition Spring_dx :: "spring \<Rightarrow> num \<Rightarrow> num option \<Rightarrow> num" where
  "Spring_dx s now dt =
     (let dt = (case dt of None \<Rightarrow> (now - startTime s) / Fin 1000 | Some v \<Rightarrow> v)
      in case spring_solution s of
           Some sol \<Rightarrow> sol_dx sol dt
         | None \<Rightarrow> Fin 0)"

definition Spring_velocity :: "spring \<Rightarrow> num \<Rightarrow> num" where
  "Spring_velocity s now = Spring_dx s now (Some ((now - startTime s) / Fin 1000))"

definition Spring_setEnd ::
  "spring \<Rightarrow> num \<Rightarrow> num \<Rightarrow> num option \<Rightarrow> num option \<Rightarrow> spring" where
  "Spring_setEnd s now endValue' velocity t =
     (let velocity = (case velocity of None \<Rightarrow> Fin 0 | Some v \<Rightarrow> v);
          position = endValue s;
          t = (case t of None \<Rightarrow> now | Some v \<Rightarrow> if falsy v then now else v)
      in if strict_eq endValue' (endValue s) \<and> almostZero velocity then s
         else
           let (position, velocity) =
                 (case spring_solution s of
                    None \<Rightarrow> (position, velocity)
                  | Some sol \<Rightarrow>
                      let velocity =
                            (if almostZero velocity
                             then sol_dx sol ((t - startTime s) / Fin 1000)
                             else velocity);
                          position = sol_x sol ((t - startTime s) / Fin 1000);
                          velocity = (if almostZero velocity then Fin 0 else velocity);
                          position = (if almostZero position then Fin 0 else position);
                          position = position + endValue s
                      in (position, velocity))
           in if spring_solution s \<noteq> None \<and> almostZero (position - endValue') \<and>
                 almostZero velocity
              then s
              else
                let s1 = s\<lparr>endValue := endValue'\<rparr>;
                    s2 = s1\<lparr>spring_solution :=
                              Some (solve s1 (position - endValue s1) velocity)\<rparr>
                in s2\<lparr>startTime := t\<rparr>)"

definition Spring_snap :: "spring \<Rightarrow> num \<Rightarrow> num \<Rightarrow> spring" where
  "Spring_snap s now endValue' =
     s\<lparr>startTime := now,
       endValue := endValue',
       spring_solution := Some \<lparr> sol_x = (\<lambda>_. Fin 0), sol_dx = (\<lambda>_. Fin 0) \<rparr>\<rparr>"

definition Spring_done :: "spring \<Rightarrow> num \<Rightarrow> num option \<Rightarrow> bool" where
  "Spring_done s now t =
     (let t = (case t of None \<Rightarrow> now | Some v \<Rightarrow> if falsy v then now else v)
      in almostEqual (Spring_x s now None) (endValue s) \<and> almostZero (Spring_dx s now None))"

definition Spring_reconfigure :: "spring \<Rightarrow> num \<Rightarrow> num \<Rightarrow> num \<Rightarrow> num \<Rightarrow> spring" where
  "Spring_reconfigure s now mass springConstant damping =
     (let s1 = s\<lparr>spring_m := mass, spring_k := springConstant, spring_c := damping\<rparr>
      in if Spring_done s1 now None then s1
         else
           let s2 = s1\<lparr>spring_solution :=
                         Some (solve s1 (Spring_x s1 now None - endValue s1)
                                 (Spring_dx s1 now None))\<rparr>
           in s2\<lparr>startTime := now\<rparr>)"

definition springConstant :: "spring \<Rightarrow> num" where
  "springConstant s = spring_k s"

definition damping :: "spring \<Rightarrow> num" where
  "damping s = spring_c s"

section \<open>The animation loop\<close>

text \<open>
  The calls the loop makes to the callbacks it was given, and the calls of the handle's
  \<open>cancel\<close>, in the order they happen.
\<close>

datatype event = OnFrame | OnFinish | Cancel

text \<open>
  The handle (\<open>id\<close>, \<open>cancelled\<close>) together with what the loop can see of the
  browser: the identifiers of this handle's frame requests that are scheduled and have
  not fired yet, and the identifier the next \<open>requestAnimationFrame\<close> returns (never 0).
\<close>

record loop =
  handle_id :: nat
  cancelled :: bool
  pending :: "nat list"
  next_id :: nat
  trace :: "event list"

text \<open>
  What the caller's code does during one frame: whether \<open>onFrame\<close> calls the handle's
  \<open>cancel\<close>, and what \<open>physicsModel.done()\<close> returns. The callbacks return normally.
\<close>

record frame =
  onFrame_cancels :: bool
  done_result :: bool

definition cancel :: "loop \<Rightarrow> loop" where
  "cancel w =
     (let w1 = (if handle_id w \<noteq> 0
                then w\<lparr>pending := removeAll (handle_id w) (pending w)\<rparr> else w)
      in w1\<lparr>cancelled := True, trace := trace w1 @ [Cancel]\<rparr>)"

definition requestAnimationFrame :: "loop \<Rightarrow> loop" where
  "requestAnimationFrame w =
     w\<lparr>handle_id := next_id w, pending := pending w @ [next_id w], next_id := Suc (next_id w)\<rparr>"

text \<open>\<open>has_onFinish\<close>: whether the optional callback \<open>onFinish\<close> was given.\<close>

definition processFrame :: "bool \<Rightarrow> frame \<Rightarrow> loop \<Rightarrow> loop" where
  "processFrame has_onFinish f w =
     (if cancelled w then w
      else
        let w1 = w\<lparr>trace := trace w @ [OnFrame]\<rparr>;
            w2 = (if onFrame_cancels f then cancel w1 else w1)
        in if \<not> done_result f \<and> \<not> cancelled w2 then requestAnimationFrame w2
           else if has_onFinish then w2\<lparr>trace := trace w2 @ [OnFinish]\<rparr>
           else w2)"

text \<open>
  \<open>runAnimation\<close> makes the handle and runs the first frame itself, before it returns
  the handle: nothing can have cancelled the handle in that frame. \<open>first_done\<close> is
  what the model's \<open>done()\<close> returns in it, \<open>n\<close> the browser's next request identifier.
\<close>

definition runAnimation :: "bool \<Rightarrow> bool \<Rightarrow> nat \<Rightarrow> loop" where
  "runAnimation has_onFinish first_done n =
     processFrame has_onFinish \<lparr> onFrame_cancels = False, done_result = first_done \<rparr>
       \<lparr> handle_id = 0, cancelled = False, pending = [], next_id = n, trace = [] \<rparr>"

text \<open>
  What happens after \<open>runAnimation\<close> has returned: the browser runs an animation frame
  (the scheduled requests are taken off the list and their callbacks, all of them
  \<open>processFrame\<close> bound to this handle, are run), or the caller calls \<open>cancel\<close>
  on the handle between two frames.
\<close>

datatype input = Tick frame | CancelCall

fun step :: "bool \<Rightarrow> loop \<Rightarrow> input \<Rightarrow> loop" where
  "step has_onFinish w (Tick f) =
     fold (\<lambda>_. processFrame has_onFinish f) (pending w) (w\<lparr>pending := []\<rparr>)"
| "step has_onFinish w CancelCall = cancel w"

definition run :: "bool \<Rightarrow> input list \<Rightarrow> loop \<Rightarrow> loop" where
  "run has_onFinish ins w = foldl (step has_onFinish) w ins"

text \<open>The calls of \<open>onFrame\<close> and \<open>onFinish\<close> made so far, in order.\<close>

definition callbacks :: "loop \<Rightarrow> event list" where
  "callbacks w = filter (\<lambda>e. e \<noteq> Cancel) (trace w)"

section \<open>Sequences of calls\<close>

text \<open>
  A call of one of the state-changing methods, with the clock reading at the call as
  its first argument, and the effect of a sequence of calls on a spring.
\<close>

datatype call =
    SetEnd num num "num option" "num option"
  | Snap num num
  | Reconfigure num num num num

fun apply_call :: "spring \<Rightarrow> call \<Rightarrow> spring" where
  "apply_call s (SetEnd now e v t) = Spring_setEnd s now e v t"
| "apply_call s (Snap now e) = Spring_snap s now e"
| "apply_call s (Reconfigure now mass k c) = Spring_reconfigure s now mass k c"

definition apply_calls :: "spring \<Rightarrow> call list \<Rightarrow> spring" where
  "apply_calls s cs = foldl apply_call s cs"

section \<open>The underdamped solution of the specification\<close>

text \<open>
  The position of an underdamped spring as the specification words it, over the reals:
  \<open>x(t) = e^(rt) (c1 cos(wt) + c2 sin(wt))\<close> with \<open>r = -c/(2m)\<close> and
  \<open>w = sqrt(4mk - c^2)/(2m)\<close>. It is compared with what \<open>solve\<close> computes.
\<close>

definition underdamped_spec :: "real \<Rightarrow> real \<Rightarrow> real \<Rightarrow> real \<Rightarrow> real \<Rightarrow> real \<Rightarrow> real" where
  "underdamped_spec c m k c1 c2 t =
     (let r = - c / (2 * m);
          w = sqrt (4 * m * k - c * c) / (2 * m)
      in exp (r * t) * (c1 * cos (w * t) + c2 * sin (w * t)))"

section \<open>Arithmetic of the numbers\<close>

lemmas num_defs = plus_num_def times_num_def divide_num_def minus_num_def uminus_num_def
  less_num_def mk_zero_def mk_inf_def

lemma uminus_Fin [simp]: "- Fin a = (if a = 0 then NZero else Fin (- a))"
  by (simp add: uminus_num_def)

lemma plus_Fin [simp]: "Fin a + Fin b = Fin (a + b)"
  by (simp add: plus_num_def)

lemma minus_Fin [simp]: "Fin a - Fin b = Fin (a - b)"
  by (simp add: minus_num_def plus_num_def)

lemma times_Fin [simp]:
  "Fin a * Fin b = (if a = 0 \<or> b = 0 then mk_zero ((a < 0) \<noteq> (b < 0)) else Fin (a * b))"
  by (simp add: times_num_def)

lemma divide_Fin [simp]:
  "Fin a / Fin b =
     (if b = 0 then (if a = 0 then NaN else mk_inf (a < 0))
      else if a = 0 then mk_zero (b < 0) else Fin (a / b))"
  by (simp add: divide_num_def)

lemma less_Fin [simp]: "(Fin a < Fin b) = (a < b)"
  by (simp add: less_num_def)

lemma fin_uminus: "isFinite a \<Longrightarrow> isFinite (- a) \<and> val (- a) = - val a"
  by (cases a) (simp_all add: uminus_num_def)

lemma fin_plus: "isFinite a \<Longrightarrow> isFinite b \<Longrightarrow> isFinite (a + b) \<and> val (a + b) = val a + val b"
  by (cases a; cases b) (simp_all add: plus_num_def)

lemma fin_minus: "isFinite a \<Longrightarrow> isFinite b \<Longrightarrow> isFinite (a - b) \<and> val (a - b) = val a - val b"
  by (cases a; cases b) (simp_all add: minus_num_def plus_num_def uminus_num_def)

lemma fin_times: "isFinite a \<Longrightarrow> isFinite b \<Longrightarrow> isFinite (a * b) \<and> val (a * b) = val a * val b"
  by (cases a; cases b) (simp_all add: times_num_def mk_zero_def)

lemma fin_divide:
  "isFinite a \<Longrightarrow> isFinite b \<Longrightarrow> val b \<noteq> 0 \<Longrightarrow> isFinite (a / b) \<and> val (a / b) = val a / val b"
  by (cases a; cases b) (simp_all add: divide_num_def mk_zero_def)

lemma fin_pow_E: "isFinite a \<Longrightarrow> isFinite (Math_pow_E a) \<and> val (Math_pow_E a) = exp (val a)"
  by (cases a) simp_all

lemma fin_cos: "isFinite a \<Longrightarrow> isFinite (Math_cos a) \<and> val (Math_cos a) = cos (val a)"
  by (cases a) simp_all

lemma fin_sin: "isFinite a \<Longrightarrow> isFinite (Math_sin a) \<and> val (Math_sin a) = sin (val a)"
  by (cases a) simp_all

lemma fin_sqrt:
  "isFinite a \<Longrightarrow> 0 \<le> val a \<Longrightarrow> isFinite (Math_sqrt a) \<and> val (Math_sqrt a) = sqrt (val a)"
  by (cases a) simp_all

lemma fin_less: "isFinite a \<Longrightarrow> isFinite b \<Longrightarrow> (a < b) = (val a < val b)"
  by (cases a; cases b) (simp_all add: less_num_def)

lemma fin_strict_eq: "isFinite a \<Longrightarrow> isFinite b \<Longrightarrow> strict_eq a b = (val a = val b)"
  by (cases a; cases b) (auto simp add: strict_eq_def)

lemma real_almost: "((y::real) - 0.001 < x \<and> x < y + 0.001) = (\<bar>x - y\<bar> < 1 / 1000)"
  by (auto simp del: divide_less_eq_numeral1 less_divide_eq_numeral1 simp add: abs_less_iff)

lemma almostEqual_Fin: "almostEqual (Fin x) (Fin y) = (\<bar>x - y\<bar> < 1 / 1000)"
  unfolding almostEqual_def EPSILON_def minus_Fin plus_Fin less_Fin by (rule real_almost)

lemma exp_neg_bound: "0 \<le> x \<Longrightarrow> exp (- x :: real) \<le> 1 / (1 + x)"
proof -
  assume x: "0 \<le> x"
  have "1 + x \<le> exp x" by (rule exp_ge_add_one_self)
  moreover have "0 < 1 + x" using x by simp
  ultimately have "inverse (exp x) \<le> inverse (1 + x)" by (rule le_imp_inverse_le)
  then show ?thesis by (simp add: exp_minus inverse_eq_divide)
qed

section \<open>A fresh spring\<close>

text \<open>
  C4, the claim as stated fails: a freshly constructed spring is reported done. With
  no solution \<open>x()\<close> and \<open>dx()\<close> return the literal 0, the end value is 0, and
  \<open>done()\<close> compares 0 with 0.
\<close>

theorem fresh_spring_counterexample:
  "Spring_done (Spring (Fin 230) (Fin 30) None) (Fin 1000) None = True"
  by (simp add: Spring_done_def Spring_x_def Spring_dx_def Spring_def almostZero_def
      almostEqual_Fin)

text \<open>
  C4, amended: on a freshly constructed spring, before any \<open>setEnd\<close> or \<open>snap\<close>,
  \<open>x()\<close> and \<open>dx()\<close> return 0 for every clock reading and every explicit \<open>dt\<close>,
  the end value is 0 (so the position relative to it is zero), and \<open>done()\<close> returns
  true.
\<close>

theorem fresh_spring_defaults:
  "Spring_x (Spring k c m) now dt = Fin 0 \<and>
   Spring_dx (Spring k c m) now dt = Fin 0 \<and>
   endValue (Spring k c m) = Fin 0 \<and>
   Spring_done (Spring k c m) now t = True"
  by (simp add: Spring_done_def Spring_x_def Spring_dx_def Spring_def almostZero_def
      almostEqual_Fin)

section \<open>Snap\<close>

lemma plus_Fin_0: "v \<noteq> NaN \<Longrightarrow> strict_eq (v + Fin 0) v"
  by (cases v) (simp_all add: strict_eq_def plus_num_def)

text \<open>
  C8: for every number \<open>v\<close> (anything but NaN) and every prior state of the spring,
  after \<open>snap(v)\<close> the position \<open>x()\<close> is strictly equal to \<open>v\<close> and \<open>dx()\<close> is 0,
  at elapsed time 0 and at every other time; the start time is the clock reading of the
  call, and the solution is the constant zero solution whatever motion was in flight.
\<close>

theorem snap_exact:
  assumes "v \<noteq> NaN"
  shows "strict_eq (Spring_x (Spring_snap s now v) now' dt) v \<and>
         Spring_dx (Spring_snap s now v) now' dt = Fin 0 \<and>
         startTime (Spring_snap s now v) = now \<and>
         endValue (Spring_snap s now v) = v \<and>
         spring_solution (Spring_snap s now v) =
           Some \<lparr> sol_x = (\<lambda>_. Fin 0), sol_dx = (\<lambda>_. Fin 0) \<rparr>"
  using assms by (simp add: Spring_snap_def Spring_x_def Spring_dx_def plus_Fin_0)

theorem snap_exact_witness:
  "Fin 375 \<noteq> NaN \<and>
   Spring_x (Spring_snap (Spring_setEnd (Spring (Fin 230) (Fin 30) None) (Fin 1000) (Fin 100) (Some (Fin 50)) None) (Fin 1200) (Fin 375)) (Fin 1200) None = Fin 375 \<and>
   Spring_dx (Spring_snap (Spring_setEnd (Spring (Fin 230) (Fin 30) None) (Fin 1000) (Fin 100) (Some (Fin 50)) None) (Fin 1200) (Fin 375)) (Fin 1200) None = Fin 0"
  using snap_exact [of "Fin 375" "Spring_setEnd (Spring (Fin 230) (Fin 30) None) (Fin 1000) (Fin 100) (Some (Fin 50)) None" "Fin 1200" "Fin 1200" None]
  by (simp add: Spring_snap_def Spring_x_def)

section \<open>Retargeting to the same end value\<close>

text \<open>
  C9: when the end value passed to \<open>setEnd\<close> is the spring's current end value and the
  requested velocity is within \<open>EPSILON\<close> of zero (in particular \<open>setEnd(v, 0)\<close> on
  a settled spring), the call returns at its first check: the state, with its solution
  and start time, is unchanged, and so it is after a second such call.
\<close>

theorem setEnd_idempotent:
  assumes "strict_eq v (endValue s)" and "almostZero vel"
  shows "Spring_setEnd s now v (Some vel) t = s \<and>
         Spring_setEnd (Spring_setEnd s now v (Some vel) t) now' v (Some vel) t' = s"
  using assms by (simp add: Spring_setEnd_def Let_def)

theorem setEnd_idempotent_witness:
  "strict_eq (Fin 375) (endValue (Spring_snap (Spring (Fin 230) (Fin 30) None) (Fin 1000) (Fin 375))) \<and>
   almostZero (Fin 0) \<and>
   Spring_done (Spring_snap (Spring (Fin 230) (Fin 30) None) (Fin 1000) (Fin 375)) (Fin 1000) None \<and>
   Spring_setEnd (Spring_setEnd (Spring_snap (Spring (Fin 230) (Fin 30) None) (Fin 1000) (Fin 375)) (Fin 1000) (Fin 375) (Some (Fin 0)) None) (Fin 1000) (Fin 375) (Some (Fin 0)) None
     = Spring_snap (Spring (Fin 230) (Fin 30) None) (Fin 1000) (Fin 375)"
  using setEnd_idempotent [of "Fin 375" "Spring_snap (Spring (Fin 230) (Fin 30) None) (Fin 1000) (Fin 375)" "Fin 0" "Fin 1000" None "Fin 1000" None]
  by (simp add: Spring_snap_def strict_eq_def almostZero_def almostEqual_Fin Spring_done_def Spring_x_def Spring_dx_def)

section \<open>No solution means end value zero\<close>

lemma setEnd_solution:
  "spring_solution (Spring_setEnd s now e v t) = None \<Longrightarrow>
   Spring_setEnd s now e v t = s"
  by (auto simp add: Spring_setEnd_def Let_def split: if_splits option.splits prod.splits)

lemma reconfigure_solution:
  "spring_solution (Spring_reconfigure s now mass k c) = None \<Longrightarrow>
   spring_solution s = None \<and> endValue (Spring_reconfigure s now mass k c) = endValue s"
  by (auto simp add: Spring_reconfigure_def Let_def split: if_splits)

lemma apply_call_inv:
  assumes "spring_solution s = None \<longrightarrow> endValue s = Fin 0"
  shows "spring_solution (apply_call s cl) = None \<longrightarrow> endValue (apply_call s cl) = Fin 0"
proof (cases cl)
  case (SetEnd now e v t)
  then show ?thesis using assms setEnd_solution [of s now e v t] by auto
next
  case (Snap now e)
  then show ?thesis by (simp add: Spring_snap_def)
next
  case (Reconfigure now mass k c)
  then show ?thesis using assms reconfigure_solution [of s now mass k c] by auto
qed

lemma apply_calls_inv:
  "(spring_solution s = None \<longrightarrow> endValue s = Fin 0) \<Longrightarrow>
   spring_solution (apply_calls s cs) = None \<longrightarrow> endValue (apply_calls s cs) = Fin 0"
  unfolding apply_calls_def
proof (induction cs arbitrary: s)
  case Nil
  then show ?case by simp
next
  case (Cons cl cs)
  from Cons.prems have "spring_solution (apply_call s cl) = None \<longrightarrow> endValue (apply_call s cl) = Fin 0"
    by (rule apply_call_inv)
  then show ?case using Cons.IH by simp
qed

text \<open>
  C10: after any sequence of \<open>setEnd\<close>, \<open>snap\<close> and \<open>reconfigure\<close> calls on a
  constructed spring, if the solution is still absent then the end value is 0, and the
  literal 0 that \<open>x()\<close> returns is the end value plus 0.
\<close>

theorem no_solution_endValue_zero:
  "spring_solution (apply_calls (Spring k c m) cs) = None \<longrightarrow>
     endValue (apply_calls (Spring k c m) cs) = Fin 0 \<and>
     Spring_x (apply_calls (Spring k c m) cs) now dt = endValue (apply_calls (Spring k c m) cs) + Fin 0"
proof
  assume n: "spring_solution (apply_calls (Spring k c m) cs) = None"
  have "spring_solution (Spring k c m) = None \<longrightarrow> endValue (Spring k c m) = Fin 0"
    by (simp add: Spring_def)
  from apply_calls_inv [OF this] n have e: "endValue (apply_calls (Spring k c m) cs) = Fin 0"
    by simp
  show "endValue (apply_calls (Spring k c m) cs) = Fin 0 \<and>
     Spring_x (apply_calls (Spring k c m) cs) now dt = endValue (apply_calls (Spring k c m) cs) + Fin 0"
    using n e by (simp add: Spring_x_def)
qed

theorem no_solution_endValue_zero_witness:
  "spring_solution (apply_calls (Spring (Fin 230) (Fin 30) None)
      [SetEnd (Fin 1000) (Fin 0) None None, Reconfigure (Fin 2000) (Fin 2) (Fin 100) (Fin 10)]) = None \<and>
   endValue (apply_calls (Spring (Fin 230) (Fin 30) None)
      [SetEnd (Fin 1000) (Fin 0) None None, Reconfigure (Fin 2000) (Fin 2) (Fin 100) (Fin 10)]) = Fin 0 \<and>
   Spring_x (apply_calls (Spring (Fin 230) (Fin 30) None)
      [SetEnd (Fin 1000) (Fin 0) None None, Reconfigure (Fin 2000) (Fin 2) (Fin 100) (Fin 10)]) (Fin 3000) None = Fin 0"
proof -
  have n: "spring_solution (apply_calls (Spring (Fin 230) (Fin 30) None)
      [SetEnd (Fin 1000) (Fin 0) None None, Reconfigure (Fin 2000) (Fin 2) (Fin 100) (Fin 10)]) = None"
    by (simp add: apply_calls_def Spring_setEnd_def Spring_reconfigure_def Spring_done_def
        Spring_x_def Spring_dx_def Spring_def strict_eq_def almostZero_def almostEqual_Fin Let_def)
  with no_solution_endValue_zero [of "Fin 230" "Fin 30" None
      "[SetEnd (Fin 1000) (Fin 0) None None, Reconfigure (Fin 2000) (Fin 2) (Fin 100) (Fin 10)]" "Fin 3000" None]
  show ?thesis by simp
qed

section \<open>The animation loop: cancelling and finishing\<close>

lemma processFrame_cancelled: "cancelled w \<Longrightarrow> processFrame hf f w = w"
  by (simp add: processFrame_def)

lemma fold_processFrame_cancelled:
  "cancelled w \<Longrightarrow> fold (\<lambda>_. processFrame hf f) ids w = w"
  by (induction ids) (simp_all add: processFrame_cancelled)

lemma step_cancelled:
  assumes "cancelled w"
  shows "cancelled (step hf w i) \<and>
         callbacks (step hf w i) = callbacks w"
proof (cases i)
  case (Tick f)
  have "cancelled (w\<lparr>pending := []\<rparr>)" using assms by simp
  then have "fold (\<lambda>_. processFrame hf f) (pending w) (w\<lparr>pending := []\<rparr>) = w\<lparr>pending := []\<rparr>"
    by (rule fold_processFrame_cancelled)
  then show ?thesis using Tick assms by (simp add: callbacks_def)
next
  case CancelCall
  then show ?thesis by (simp add: cancel_def callbacks_def Let_def)
qed

lemma run_cancelled:
  "cancelled w \<Longrightarrow>
   callbacks (run hf ins w) = callbacks w"
  unfolding run_def
proof (induction ins arbitrary: w)
  case Nil
  then show ?case by simp
next
  case (Cons i ins)
  from step_cancelled [OF Cons.prems, of hf i] Cons.IH [of "step hf w i"]
  show ?case by simp
qed

lemma cancel_callbacks:
  "cancelled (cancel w) \<and>
   callbacks (cancel w) = callbacks w"
  by (simp add: cancel_def callbacks_def Let_def)

lemma runAnimation_trace:
  "trace (runAnimation hf d n) = (if d \<and> hf then [OnFrame, OnFinish] else [OnFrame])"
  by (simp add: runAnimation_def processFrame_def requestAnimationFrame_def Let_def)

text \<open>
  C2, the claim as stated fails. \<open>runAnimation\<close> runs the first frame itself: when it
  returns, \<open>onFrame\<close> has been called once and the next frame is scheduled, so a
  handle cancelled before any scheduled frame has fired has already seen one call of
  \<open>onFrame\<close>. And when \<open>onFrame\<close> itself calls \<open>cancel\<close> during a frame, that
  frame goes on to call \<open>onFinish\<close>.
\<close>

theorem cancel_before_first_scheduled_frame_counterexample:
  "pending (runAnimation True False 1) = [1] \<and>
   trace (run True [CancelCall] (runAnimation True False 1)) = [OnFrame, Cancel] \<and>
   trace (run True [Tick \<lparr> onFrame_cancels = True, done_result = False \<rparr>]
            (runAnimation True False 1)) = [OnFrame, OnFrame, Cancel, OnFinish]"
  by (simp add: run_def runAnimation_def processFrame_def requestAnimationFrame_def
      cancel_def Let_def)

text \<open>
  C2, amended: \<open>runAnimation\<close> calls \<open>onFrame\<close> once before it returns the handle
  (and \<open>onFinish\<close> once, when it was given and the model is done at once); and after
  a call of \<open>cancel\<close> made between two frames, whatever happened before it and whatever
  happens after it, the calls of \<open>onFrame\<close> and \<open>onFinish\<close> are exactly those made
  before the cancel.
\<close>

theorem cancel_stops_callbacks:
  "trace (runAnimation hf d n) = (if d \<and> hf then [OnFrame, OnFinish] else [OnFrame]) \<and>
   callbacks (run hf (before @ CancelCall # after) (runAnimation hf d n)) =
   callbacks (run hf before (runAnimation hf d n))"
proof -
  let ?w = "run hf before (runAnimation hf d n)"
  have "run hf (before @ CancelCall # after) (runAnimation hf d n) = run hf after (cancel ?w)"
    by (simp add: run_def)
  moreover have "callbacks (run hf after (cancel ?w)) =
      callbacks (cancel ?w)"
    using cancel_callbacks [of ?w] by (intro run_cancelled) simp
  ultimately show ?thesis using cancel_callbacks [of ?w] by (simp add: runAnimation_trace)
qed

lemma step_idle:
  assumes "pending w = []"
  shows "pending (step hf w i) = [] \<and>
         callbacks (step hf w i) = callbacks w"
  using assms by (cases i) (simp_all add: cancel_def callbacks_def Let_def)

lemma run_idle:
  "pending w = [] \<Longrightarrow>
   pending (run hf ins w) = [] \<and>
   callbacks (run hf ins w) = callbacks w"
  unfolding run_def
proof (induction ins arbitrary: w)
  case Nil
  then show ?case by simp
next
  case (Cons i ins)
  from step_idle [OF Cons.prems, of hf i] Cons.IH [of "step hf w i"]
  show ?case by simp
qed

text \<open>
  C7: when the model's \<open>done()\<close> returns true in the first frame, \<open>runAnimation\<close>
  calls \<open>onFrame\<close> once and then \<open>onFinish\<close> once (when it was given), schedules
  no frame, and whatever happens afterwards no frame is scheduled and no further callback
  is made.
\<close>

theorem done_at_once:
  "trace (runAnimation hf True n) = (if hf then [OnFrame, OnFinish] else [OnFrame]) \<and>
   pending (runAnimation hf True n) = [] \<and>
   pending (run hf ins (runAnimation hf True n)) = [] \<and>
   callbacks (run hf ins (runAnimation hf True n)) =
     (if hf then [OnFrame, OnFinish] else [OnFrame])"
proof -
  have p: "pending (runAnimation hf True n) = []"
    by (simp add: runAnimation_def processFrame_def Let_def)
  have t: "trace (runAnimation hf True n) = (if hf then [OnFrame, OnFinish] else [OnFrame])"
    by (simp add: runAnimation_trace)
  from run_idle [OF p, of hf ins] p t show ?thesis by (simp add: callbacks_def)
qed

section \<open>The critically damped branch\<close>

text \<open>
  C1, where the code departs from the claim. A spring with \<open>k = 1\<close>, \<open>c = 2\<close>,
  \<open>m = 1\<close> has \<open>c^2 = 4mk\<close>, and \<open>solve\<close> does take the critically damped
  branch. There \<open>c2 = velocity / (r * initial)\<close>: with initial position 0 and velocity
  1 the divisor is \<open>-1 * 0 = -0\<close> and \<open>c2\<close> is \<open>-Infinity\<close>; the position is NaN
  at time 0 and \<open>-Infinity\<close> at time 1. The public methods reach it: \<open>snap(0)\<close>
  followed by \<open>setEnd(0, 1)\<close> leaves a spring whose \<open>x()\<close> is NaN.
\<close>

theorem critical_solve_divides_by_zero:
  "solve (Spring (Fin 1) (Fin 2) None) (Fin 0) (Fin 1) =
     solve_critical (Fin 2) (Fin 1) (Fin 0) (Fin 1) \<and>
   Fin 1 / ((- Fin 2) / (Fin 2 * Fin 1) * Fin 0) = NInf \<and>
   sol_x (solve (Spring (Fin 1) (Fin 2) None) (Fin 0) (Fin 1)) (Fin 0) = NaN \<and>
   sol_x (solve (Spring (Fin 1) (Fin 2) None) (Fin 0) (Fin 1)) (Fin 1) = NInf \<and>
   Spring_x (Spring_setEnd (Spring_snap (Spring (Fin 1) (Fin 2) None) (Fin 1000) (Fin 0))
               (Fin 1000) (Fin 0) (Some (Fin 1)) None) (Fin 1000) None = NaN"
proof -
  have b: "solve (Spring (Fin 1) (Fin 2) None) (Fin 0) (Fin 1) =
     solve_critical (Fin 2) (Fin 1) (Fin 0) (Fin 1)"
    by (simp add: solve_def Spring_def strict_eq_def Let_def)
  have c2: "Fin 1 / ((- Fin 2) / (Fin 2 * Fin 1) * Fin 0) = NInf"
    by (simp add: num_defs)
  have x0: "sol_x (solve_critical (Fin 2) (Fin 1) (Fin 0) (Fin 1)) (Fin 0) = NaN"
    by (simp add: solve_critical_def Let_def num_defs)
  have x1: "sol_x (solve_critical (Fin 2) (Fin 1) (Fin 0) (Fin 1)) (Fin 1) = NInf"
    by (simp add: solve_critical_def Let_def num_defs)
  have s: "Spring_setEnd (Spring_snap (Spring (Fin 1) (Fin 2) None) (Fin 1000) (Fin 0))
               (Fin 1000) (Fin 0) (Some (Fin 1)) None =
           (Spring (Fin 1) (Fin 2) None)
             \<lparr> spring_solution := Some (solve_critical (Fin 2) (Fin 1) (Fin 0) (Fin 1)),
               startTime := Fin 1000 \<rparr>"
    by (simp add: Spring_setEnd_def Spring_snap_def Spring_def solve_def strict_eq_def
        almostZero_def almostEqual_Fin Let_def)
  have e: "Spring_x (Spring_setEnd (Spring_snap (Spring (Fin 1) (Fin 2) None) (Fin 1000) (Fin 0))
               (Fin 1000) (Fin 0) (Some (Fin 1)) None) (Fin 1000) None = NaN"
    unfolding s by (simp add: Spring_x_def Spring_def mk_zero_def x0 plus_num_def)
  from b c2 x0 x1 e show ?thesis by simp
qed

section \<open>The time argument of done\<close>

lemma done_argument_unused: "Spring_done s now t = Spring_done s now None"
  by (simp add: Spring_done_def Let_def)

lemma exp_small:
  "0 < exp (- 20000 :: real)" "exp (- 20000 :: real) \<le> 1 / 20001"
  "0 < exp (- 10000 :: real)" "exp (- 10000 :: real) \<le> 1 / 10001"
  using exp_neg_bound [of 20000] exp_neg_bound [of 10000] by simp_all

lemma settled_bounds:
  fixes a b :: real
  assumes "0 < a" "a \<le> 1 / 20001" "0 < b" "b \<le> 1 / 10001"
  shows "almostEqual (Fin (1 + (a - 2 * b))) (Fin 1) \<and> almostZero (Fin (2 * b - 2 * a))"
proof -
  have "\<bar>1 + (a - 2 * b) - 1\<bar> < 1 / 1000" using assms by linarith
  moreover have "\<bar>2 * b - 2 * a - 0\<bar> < 1 / 1000" using assms by linarith
  ultimately show ?thesis unfolding almostZero_def almostEqual_Fin by blast
qed

text \<open>
  C3, where the code departs from the claim. \<open>done(t)\<close> samples \<open>x()\<close> and
  \<open>dx()\<close> at the clock reading and never uses \<open>t\<close>. An overdamped spring
  (\<open>k = 2\<close>, \<open>c = 3\<close>) retargeted from 0 to 1 at time 1000 is at position 0 at that
  time, a whole unit away from its end value; asked at clock reading 10001000 whether it
  was done at time 1000, it answers true.
\<close>

theorem done_ignores_time_argument:
  "Spring_done (Spring_setEnd (Spring (Fin 2) (Fin 3) None) (Fin 1000) (Fin 1) None None)
     (Fin 10001000) (Some (Fin 1000)) = True \<and>
   endValue (Spring_setEnd (Spring (Fin 2) (Fin 3) None) (Fin 1000) (Fin 1) None None) = Fin 1 \<and>
   Spring_x (Spring_setEnd (Spring (Fin 2) (Fin 3) None) (Fin 1000) (Fin 1) None None)
     (Fin 1000) None = Fin 0 \<and>
   \<not> almostEqual
       (Spring_x (Spring_setEnd (Spring (Fin 2) (Fin 3) None) (Fin 1000) (Fin 1) None None)
          (Fin 1000) None)
       (endValue (Spring_setEnd (Spring (Fin 2) (Fin 3) None) (Fin 1000) (Fin 1) None None))"
proof -
  let ?s = "Spring_setEnd (Spring (Fin 2) (Fin 3) None) (Fin 1000) (Fin 1) None None"
  have s: "?s = (Spring (Fin 2) (Fin 3) None)
      \<lparr> endValue := Fin 1,
        spring_solution := Some (solve_overdamped (Fin 3) (Fin 1) (Fin 1) (Fin (- 1)) (Fin 0)),
        startTime := Fin 1000 \<rparr>"
    by (simp add: Spring_setEnd_def Spring_def solve_def strict_eq_def Let_def mk_zero_def)
  have x0: "Spring_x ?s (Fin 1000) None = Fin 0"
    unfolding s by (simp add: Spring_x_def Spring_def solve_overdamped_def Let_def mk_zero_def)
  have xT: "Spring_x ?s (Fin 10001000) None = Fin (1 + (exp (- 20000) - 2 * exp (- 10000)))"
    unfolding s by (simp add: Spring_x_def Spring_def solve_overdamped_def Let_def mk_zero_def)
  have dxT: "Spring_dx ?s (Fin 10001000) None = Fin (2 * exp (- 10000) - 2 * exp (- 20000))"
    unfolding s by (simp add: Spring_dx_def Spring_def solve_overdamped_def Let_def mk_zero_def)
  have e: "endValue ?s = Fin 1"
    unfolding s by simp
  have d: "Spring_done ?s (Fin 10001000) (Some (Fin 1000))"
    unfolding Spring_done_def Let_def xT dxT e
    using settled_bounds [OF exp_small] by simp
  have n: "\<not> almostEqual (Spring_x ?s (Fin 1000) None) (endValue ?s)"
    unfolding x0 e almostEqual_Fin by simp
  from d e x0 n show ?thesis by simp
qed

section \<open>The underdamped branch\<close>

text \<open>
  C5, where the code departs from the claim. The underdamped branch computes the rate as
  \<open>r = -((c / 2) * m)\<close>, which is \<open>-c/(2m)\<close> only when the mass is 1 (or the
  damping 0). For \<open>m = 2\<close>, \<open>c = 2\<close>, \<open>k = 1\<close>, initial position 1 and velocity 0
  the code's position is 1 at time 0 and \<open>-e^(-4 pi)\<close> at time \<open>2 pi\<close>, and no
  choice of \<open>c1\<close> and \<open>c2\<close> makes the specification's formula, whose rate is
  \<open>-1/2\<close>, agree with it at all times.
\<close>

theorem underdamped_rate_differs:
  "sol_x (solve (Spring (Fin 1) (Fin 2) (Some (Fin 2))) (Fin 1) (Fin 0)) (Fin 0) = Fin 1 \<and>
   sol_x (solve (Spring (Fin 1) (Fin 2) (Some (Fin 2))) (Fin 1) (Fin 0)) (Fin (2 * pi)) =
     Fin (- exp (- 4 * pi)) \<and>
   \<not> (\<exists>c1 c2. \<forall>t. val (sol_x (solve (Spring (Fin 1) (Fin 2) (Some (Fin 2))) (Fin 1) (Fin 0)) (Fin t)) =
        underdamped_spec 2 2 1 c1 c2 t)"
proof -
  let ?sol = "solve (Spring (Fin 1) (Fin 2) (Some (Fin 2))) (Fin 1) (Fin 0)"
  have b: "?sol = solve_underdamped (Fin 2) (Fin 2) (Fin 1) (Fin 1) (Fin 0)"
    by (simp add: solve_def Spring_def strict_eq_def Let_def)
  have x0: "sol_x ?sol (Fin 0) = Fin 1"
    unfolding b by (simp add: solve_underdamped_def Let_def mk_zero_def)
  have x1: "sol_x ?sol (Fin (2 * pi)) = Fin (- exp (- 4 * pi))"
    unfolding b by (simp add: solve_underdamped_def Let_def mk_zero_def)
  have "False" if h: "\<forall>t. val (sol_x ?sol (Fin t)) = underdamped_spec 2 2 1 c1 c2 t" for c1 c2
  proof -
    from h have "val (sol_x ?sol (Fin 0)) = underdamped_spec 2 2 1 c1 c2 0" by blast
    then have c1: "c1 = 1" by (simp add: x0 underdamped_spec_def)
    from h have "val (sol_x ?sol (Fin (2 * pi))) = underdamped_spec 2 2 1 c1 c2 (2 * pi)" by blast
    then have "exp (- 4 * pi) = exp (- pi)"
      by (simp add: x1 c1 underdamped_spec_def)
    then have "- 4 * pi = - pi" by (simp only: exp_inj_iff)
    then show False using pi_gt_zero by simp
  qed
  then have "\<not> (\<exists>c1 c2. \<forall>t. val (sol_x ?sol (Fin t)) = underdamped_spec 2 2 1 c1 c2 t)"
    by blast
  with x0 x1 show ?thesis by simp
qed

section \<open>The underdamped branch at mass 1\<close>

lemmas isFinite_ops =
  fin_uminus [THEN conjunct1] fin_plus [THEN conjunct1] fin_minus [THEN conjunct1]
  fin_times [THEN conjunct1] fin_divide [THEN conjunct1] fin_pow_E [THEN conjunct1]
  fin_cos [THEN conjunct1] fin_sin [THEN conjunct1] fin_sqrt [THEN conjunct1]

lemmas val_ops =
  fin_uminus [THEN conjunct2] fin_plus [THEN conjunct2] fin_minus [THEN conjunct2]
  fin_times [THEN conjunct2] fin_divide [THEN conjunct2] fin_pow_E [THEN conjunct2]
  fin_cos [THEN conjunct2] fin_sin [THEN conjunct2] fin_sqrt [THEN conjunct2]

text \<open>
  With the default mass 1 the rate \<open>-((c / 2) * m)\<close> of the underdamped branch is
  \<open>-c/(2m)\<close>, and, rounding left aside, the branch computes the specification's
  formula, with \<open>c1\<close> the initial position and \<open>c2 = (velocity - r * initial) / w\<close>.
\<close>

lemma underdamped_mass_one:
  assumes f: "isFinite c" "isFinite k" "isFinite i" "isFinite v" "isFinite t"
    and d: "val c * val c < 4 * val k"
  shows "val (sol_x (solve (Spring k c None) i v) t) =
         underdamped_spec (val c) 1 (val k) (val i)
           ((val v + val c / 2 * val i) / (sqrt (4 * val k - val c * val c) / 2)) (val t)"
proof -
  let ?cmk = "c * c - Fin 4 * Fin 1 * k"
  define w where "w = Math_sqrt (Fin 4 * Fin 1 * k - c * c) / (Fin 2 * Fin 1)"
  define r where "r = - ((c / Fin 2) * Fin 1)"
  define c2 where "c2 = (v - r * i) / w"
  have cmk: "isFinite ?cmk" "val ?cmk = val c * val c - 4 * val k"
    using f by (simp_all add: isFinite_ops val_ops)
  have z: "\<not> strict_eq ?cmk (Fin 0)" "\<not> Fin 0 < ?cmk"
    using cmk d by (simp_all add: fin_strict_eq fin_less)
  have e: "solve (Spring k c None) i v = solve_underdamped c (Fin 1) k i v"
    using z by (simp add: solve_def Spring_def Let_def)
  have a: "isFinite (Fin 4 * Fin 1 * k - c * c)"
      "val (Fin 4 * Fin 1 * k - c * c) = 4 * val k - val c * val c"
    using f by (simp_all add: isFinite_ops val_ops)
  have sq: "isFinite (Math_sqrt (Fin 4 * Fin 1 * k - c * c))"
      "val (Math_sqrt (Fin 4 * Fin 1 * k - c * c)) = sqrt (4 * val k - val c * val c)"
    using a d by (simp_all add: fin_sqrt)
  have w: "isFinite w" "val w = sqrt (4 * val k - val c * val c) / 2"
    unfolding w_def using sq by (simp_all add: isFinite_ops val_ops)
  have "0 < sqrt (4 * val k - val c * val c) / 2" using d by simp
  then have w0: "val w \<noteq> 0" unfolding w(2) by linarith
  have r: "isFinite r" "val r = - (val c / 2)"
    unfolding r_def using f by (simp_all add: isFinite_ops val_ops)
  have c2: "isFinite c2" "val c2 = (val v + val c / 2 * val i) / val w"
    unfolding c2_def using f r w(1) w0 by (simp_all add: isFinite_ops val_ops)
  have sx: "sol_x (solve_underdamped c (Fin 1) k i v) =
      (\<lambda>t. Math_pow_E (r * t) * (i * Math_cos (w * t) + c2 * Math_sin (w * t)))"
    by (simp only: solve_underdamped_def Let_def r_def w_def c2_def solution.simps)
  have "val (sol_x (solve_underdamped c (Fin 1) k i v) t) =
        exp (val r * val t) * (val i * cos (val w * val t) + val c2 * sin (val w * val t))"
    using f c2(1) r(1) w(1) by (simp add: sx isFinite_ops val_ops)
  then show ?thesis
    by (simp add: e underdamped_spec_def r(2) w(2) c2(2))
qed

end
